theory Spec2Isabelle
  imports Main
begin

section \<open>Drive items and the sharing classification\<close>

text \<open>
  The values of \<^verbatim>\<open>DriveApp.Access\<close>. \<^verbatim>\<open>PRIVATE\<close> is the most restrictive one: only
  people who were granted access explicitly can open the item.
\<close>

datatype Access = ANYONE | ANYONE_WITH_LINK | DOMAIN | DOMAIN_WITH_LINK | PRIVATE

text \<open>
  What \<^verbatim>\<open>getSharingAccess\<close> reads from a file or folder: \<^verbatim>\<open>getName()\<close>,
  \<^verbatim>\<open>getSharingAccess()\<close>, \<^verbatim>\<open>getOwner().getEmail()\<close> and the e-mail addresses of
  \<^verbatim>\<open>getViewers()\<close> and \<^verbatim>\<open>getEditors()\<close>, in the order of the arrays.
\<close>

record item =
  itemName :: string
  sharingAccess :: Access
  ownerEmail :: string
  viewerEmails :: "string list"
  editorEmails :: "string list"

text \<open>
  Each of the two \<^verbatim>\<open>for\<close> loops of \<^verbatim>\<open>getSharingAccess\<close> leaves the function with
  \<^verbatim>\<open>"Shared"\<close> at the first address that differs from the effective user's;
  \<open>othersHaveAccess\<close> says whether a loop does so.
\<close>

fun othersHaveAccess :: "string \<Rightarrow> string list \<Rightarrow> bool" where
  "othersHaveAccess effectiveUserMail [] = False"
| "othersHaveAccess effectiveUserMail (u # us) =
     (if u \<noteq> effectiveUserMail then True else othersHaveAccess effectiveUserMail us)"

definition getSharingAccess :: "string \<Rightarrow> item \<Rightarrow> string" where
  "getSharingAccess effectiveUserMail it =
     (if sharingAccess it = PRIVATE then
        if ownerEmail it \<noteq> effectiveUserMail then ''Shared''
        else if othersHaveAccess effectiveUserMail (viewerEmails it) then ''Shared''
        else if othersHaveAccess effectiveUserMail (editorEmails it) then ''Shared''
        else ''Private''
      else ''Shared'')"


section \<open>The recursive iterator and the Drive service\<close>

text \<open>
  One entry of the recursive iterator. Continuation tokens are opaque to the script:
  it compares them with \<^verbatim>\<open>null\<close> and hands them back to \<^verbatim>\<open>DriveApp\<close>, so the model
  is polymorphic in the token types \<open>'f\<close> (file iterators) and \<open>'d\<close> (folder
  iterators); \<open>None\<close> is \<^verbatim>\<open>null\<close>.
\<close>

record ('f, 'd) iteration =
  folderName :: string
  fileIteratorContinuationToken :: "'f option"
  folderIteratorContinuationToken :: "'d option"

text \<open>
  A folder handle, as far as the script looks at it: the folder as an item, and the
  tokens of \<^verbatim>\<open>folder.getFiles().getContinuationToken()\<close> and
  \<^verbatim>\<open>folder.getFolders().getContinuationToken()\<close>.
\<close>

record ('f, 'd) folder =
  folderItem :: item
  getFiles :: 'f
  getFolders :: 'd

text \<open>
  The Drive service. \<open>continueFileIterator drv tok\<close> resumes the iterator of \<open>tok\<close>:
  \<open>None\<close> when \<^verbatim>\<open>hasNext()\<close> is false, otherwise the result of \<^verbatim>\<open>next()\<close> together
  with the \<^verbatim>\<open>getContinuationToken()\<close> read after it.
  \<open>getFoldersByName drv f n\<close> is the first element of \<^verbatim>\<open>f.getFoldersByName(n)\<close>, if any.
  Calls of the service are taken to succeed.
\<close>

record ('f, 'd) drive =
  effectiveUser :: string
  getRootFolder :: "('f, 'd) folder"
  continueFileIterator :: "'f \<Rightarrow> (item \<times> 'f) option"
  continueFolderIterator :: "'d \<Rightarrow> (('f, 'd) folder \<times> 'd) option"
  getFoldersByName :: "('f, 'd) folder \<Rightarrow> string \<Rightarrow> ('f, 'd) folder option"

text \<open>Cells and sheets of the report: a sheet is the list of its rows.\<close>

datatype cell = Text string | Number int

type_synonym sheet = "cell list list"

definition appendRow :: "cell list \<Rightarrow> sheet \<Rightarrow> sheet" where
  "appendRow r sh = sh @ [r]"

text \<open>What an invocation can throw.\<close>

datatype error = TypeError | SyntaxError | Thrown string

text \<open>\<^verbatim>\<open>Array.prototype.join\<close> on an array of strings.\<close>

fun join :: "string \<Rightarrow> string list \<Rightarrow> string" where
  "join sep [] = []"
| "join sep [x] = x"
| "join sep (x # y # ys) = x @ sep @ join sep (y # ys)"

definition makeIterationFromFolder :: "('f, 'd) folder \<Rightarrow> ('f, 'd) iteration" where
  "makeIterationFromFolder f =
     \<lparr> folderName = itemName (folderItem f),
       fileIteratorContinuationToken = Some (getFiles f),
       folderIteratorContinuationToken = Some (getFolders f) \<rparr>"


section \<open>One step of the iteration\<close>

text \<open>
  \<^verbatim>\<open>listFilesAndFolders(recursiveIterator, sheet)\<close>. The sheet is threaded through and
  returned also when the call throws. On an empty array \<^verbatim>\<open>currentIteration\<close> is
  \<^verbatim>\<open>undefined\<close> and reading its property is a \<^verbatim>\<open>TypeError\<close>.
\<close>

definition listFilesAndFolders ::
  "('f, 'd) drive \<Rightarrow> ('f, 'd) iteration list \<Rightarrow> sheet \<Rightarrow>
     (error + ('f, 'd) iteration list) \<times> sheet" where
  "listFilesAndFolders drv recursiveIterator sheet =
     (if recursiveIterator = [] then (Inl TypeError, sheet)
      else
        let currentIteration = last recursiveIterator;
            top = length recursiveIterator - 1
        in case fileIteratorContinuationToken currentIteration of
          Some ftok \<Rightarrow>
            (case continueFileIterator drv ftok of
               Some (file, ftok') \<Rightarrow>
                 let path = join ''/'' (map folderName recursiveIterator);
                     access = getSharingAccess (effectiveUser drv) file;
                     sheet' = (if access \<noteq> ''Private''
                               then appendRow [Text (path @ itemName file), Text ''File'', Text access] sheet
                               else sheet)
                 in (Inr (recursiveIterator
                       [top := currentIteration\<lparr>fileIteratorContinuationToken := Some ftok'\<rparr>]),
                     sheet')
             | None \<Rightarrow>
                 (Inr (recursiveIterator
                    [top := currentIteration\<lparr>fileIteratorContinuationToken := None\<rparr>]),
                  sheet))
        | None \<Rightarrow>
            (case folderIteratorContinuationToken currentIteration of
               Some dtok \<Rightarrow>
                 (case continueFolderIterator drv dtok of
                    Some (folder, dtok') \<Rightarrow>
                      let path = join ''/'' (map folderName recursiveIterator);
                          access = getSharingAccess (effectiveUser drv) (folderItem folder);
                          sheet' = (if access \<noteq> ''Private''
                                    then appendRow [Text (path @ itemName (folderItem folder)),
                                                    Text ''Folder'', Text access] sheet
                                    else sheet)
                      in (Inr (recursiveIterator
                            [top := currentIteration\<lparr>folderIteratorContinuationToken := Some dtok'\<rparr>]
                            @ [makeIterationFromFolder folder]),
                          sheet')
                  | None \<Rightarrow> (Inr (butlast recursiveIterator), sheet))
             | None \<Rightarrow> (Inl (Thrown ''Should never get here. Iterator failure!''), sheet)))"



text \<open>
  The branch a call takes, read off the code: a file-iterator call (a file is listed, or the
  file token is set to \<^verbatim>\<open>null\<close>), a folder-iterator call that descends, a pop, or a throw.
\<close>

datatype stepKind = LeafAdvance | ChildAdvance | Pop | Failure

definition stepKindOf :: "('f, 'd) drive \<Rightarrow> ('f, 'd) iteration list \<Rightarrow> stepKind" where
  "stepKindOf drv recursiveIterator =
     (if recursiveIterator = [] then Failure
      else case fileIteratorContinuationToken (last recursiveIterator) of
        Some ftok \<Rightarrow> LeafAdvance
      | None \<Rightarrow>
          (case folderIteratorContinuationToken (last recursiveIterator) of
             Some dtok \<Rightarrow>
               (case continueFolderIterator drv dtok of Some x \<Rightarrow> ChildAdvance | None \<Rightarrow> Pop)
           | None \<Rightarrow> Failure))"

text \<open>The file or folder that a call obtains from \<^verbatim>\<open>next()\<close>, if it obtains one.\<close>

definition yielded :: "('f, 'd) drive \<Rightarrow> ('f, 'd) iteration list \<Rightarrow> item option" where
  "yielded drv recursiveIterator =
     (if recursiveIterator = [] then None
      else case fileIteratorContinuationToken (last recursiveIterator) of
        Some ftok \<Rightarrow> map_option fst (continueFileIterator drv ftok)
      | None \<Rightarrow>
          (case folderIteratorContinuationToken (last recursiveIterator) of
             Some dtok \<Rightarrow> map_option (folderItem \<circ> fst) (continueFolderIterator drv dtok)
           | None \<Rightarrow> None))"

text \<open>\<open>n\<close> calls in a row, stopping at the first throw.\<close>

fun stepsN ::
  "('f, 'd) drive \<Rightarrow> nat \<Rightarrow> ('f, 'd) iteration list \<Rightarrow> sheet \<Rightarrow>
     (error + ('f, 'd) iteration list) \<times> sheet" where
  "stepsN drv 0 recursiveIterator sheet = (Inr recursiveIterator, sheet)"
| "stepsN drv (Suc n) recursiveIterator sheet =
     (case listFilesAndFolders drv recursiveIterator sheet of
        (Inl e, sheet') \<Rightarrow> (Inl e, sheet')
      | (Inr recursiveIterator', sheet') \<Rightarrow> stepsN drv n recursiveIterator' sheet')"

text \<open>
  The \<^verbatim>\<open>while\<close> loop of \<^verbatim>\<open>main\<close> when the time limit is never reached: calls are
  made until the array is empty. \<open>None\<close> stands for a loop that does not return.
\<close>

partial_function (option) runUnlimited ::
  "('f, 'd) drive \<Rightarrow> ('f, 'd) iteration list \<Rightarrow> sheet \<Rightarrow> (error option \<times> sheet) option" where
  "runUnlimited drv recursiveIterator sheet =
     (if recursiveIterator \<noteq> [] then
        case listFilesAndFolders drv recursiveIterator sheet of
          (Inl e, sheet') \<Rightarrow> Some (Some e, sheet')
        | (Inr recursiveIterator', sheet') \<Rightarrow> runUnlimited drv recursiveIterator' sheet'
      else Some (None, sheet))"

declare runUnlimited.simps [code]


section \<open>A finite, unchanging Drive\<close>

text \<open>
  A folder with its files and subfolders, in the order in which the iterators return them.
  Over such a tree a continuation token stands for what its iterator has not returned yet:
  a file token is the list of the remaining files, a folder token the list of the remaining
  subfolders.
\<close>

datatype tree = Folder item "item list" "tree list"

fun treeItem :: "tree \<Rightarrow> item" where
  "treeItem (Folder m fs ds) = m"

fun handle :: "tree \<Rightarrow> (item list, tree list) folder" where
  "handle (Folder m fs ds) = \<lparr> folderItem = m, getFiles = fs, getFolders = ds \<rparr>"

definition treeDrive :: "string \<Rightarrow> tree \<Rightarrow> (item list, tree list) drive" where
  "treeDrive me t =
     \<lparr> effectiveUser = me,
       getRootFolder = handle t,
       continueFileIterator = (\<lambda>fs. case fs of [] \<Rightarrow> None | f # fs' \<Rightarrow> Some (f, fs')),
       continueFolderIterator = (\<lambda>ds. case ds of [] \<Rightarrow> None | d # ds' \<Rightarrow> Some (handle d, ds')),
       getFoldersByName = (\<lambda>f n. map_option handle
          (find (\<lambda>d. itemName (treeItem d) = n) (getFolders f))) \<rparr>"

text \<open>
  The order of the report as the specification words it, for a folder reached through the
  folders \<open>names\<close> (the folder itself last): the rows of its files; then, for each subfolder in
  turn, the subfolder's own row followed by everything below that subfolder. A row is written
  only for an item that is not \<^verbatim>\<open>"Private"\<close>, and its first cell is what the script writes:
  the joined folder names immediately followed by the item's name.
\<close>

definition reportRow :: "string \<Rightarrow> string list \<Rightarrow> string \<Rightarrow> item \<Rightarrow> cell list list" where
  "reportRow me names kind it =
     (if getSharingAccess me it \<noteq> ''Private''
      then [[Text (join ''/'' names @ itemName it), Text kind, Text (getSharingAccess me it)]]
      else [])"

fun expectedRows :: "string \<Rightarrow> string list \<Rightarrow> tree \<Rightarrow> cell list list" where
  "expectedRows me names (Folder m fs ds) =
     concat (map (reportRow me names ''File'') fs) @
     concat (map (\<lambda>d. reportRow me names ''Folder'' (treeItem d) @
                       expectedRows me (names @ [itemName (treeItem d)]) d) ds)"

text \<open>The calls that a folder takes, in order, and how many of each kind.\<close>

fun expectedTrace :: "tree \<Rightarrow> stepKind list" where
  "expectedTrace (Folder m fs ds) =
     replicate (Suc (length fs)) LeafAdvance @
     concat (map (\<lambda>d. ChildAdvance # expectedTrace d) ds) @ [Pop]"

fun leafPageAdvances :: "tree \<Rightarrow> nat" where
  "leafPageAdvances (Folder m fs ds) = Suc (length fs) + sum_list (map leafPageAdvances ds)"

fun childPageAdvances :: "tree \<Rightarrow> nat" where
  "childPageAdvances (Folder m fs ds) = length ds + sum_list (map childPageAdvances ds)"

fun popOperations :: "tree \<Rightarrow> nat" where
  "popOperations (Folder m fs ds) = Suc (sum_list (map popOperations ds))"

text \<open>The kinds of the first \<open>n\<close> calls.\<close>

fun traceN :: "('f, 'd) drive \<Rightarrow> nat \<Rightarrow> ('f, 'd) iteration list \<Rightarrow> stepKind list" where
  "traceN drv 0 recursiveIterator = []"
| "traceN drv (Suc n) recursiveIterator =
     stepKindOf drv recursiveIterator #
       (case listFilesAndFolders drv recursiveIterator [] of
          (Inl e, sheet') \<Rightarrow> []
        | (Inr recursiveIterator', sheet') \<Rightarrow> traceN drv n recursiveIterator')"



section \<open>JSON.stringify and JSON.parse\<close>

text \<open>
  The two built-in functions through which the iterator is persisted. A string that the script
  holds or stores is a \<open>string\<close> here, so its characters are limited to the code units
  below 256. A text of such characters can still denote any code unit by a \<^verbatim>\<open>\u\<close> escape, so
  the strings of a parsed value are lists of code units, as numbers. A JSON value is therefore
  polymorphic in the characters of its strings: \<open>char json\<close> is written, \<open>nat json\<close> is
  read. A number is kept as the text of its literal.
\<close>

datatype 'c json =
  JNull | JBool bool | JNum string | JStr "'c list" | JArr "'c json list"
  | JObj "('c list \<times> 'c json) list"

abbreviation dquote :: char where "dquote \<equiv> CHR 0x22"

abbreviation backslash :: char where "backslash \<equiv> CHR 0x5C"

definition hexDigit :: "nat \<Rightarrow> char" where
  "hexDigit n = ''0123456789abcdef'' ! n"

text \<open>\<^verbatim>\<open>QuoteJSONString\<close>: the escapes that \<^verbatim>\<open>JSON.stringify\<close> writes.\<close>

definition quoteChar :: "char \<Rightarrow> string" where
  "quoteChar c =
     (if c = dquote then [backslash, dquote]
      else if c = backslash then [backslash, backslash]
      else if c = CHR 0x08 then [backslash, CHR ''b'']
      else if c = CHR 0x0C then [backslash, CHR ''f'']
      else if c = CHR 0x0A then [backslash, CHR ''n'']
      else if c = CHR 0x0D then [backslash, CHR ''r'']
      else if c = CHR 0x09 then [backslash, CHR ''t'']
      else if (of_char c :: nat) < 32 then
        [backslash, CHR ''u'', CHR ''0'', CHR ''0'',
         hexDigit ((of_char c :: nat) div 16), hexDigit ((of_char c :: nat) mod 16)]
      else [c])"

definition quoteJSONString :: "string \<Rightarrow> string" where
  "quoteJSONString s = dquote # concat (map quoteChar s) @ [dquote]"

fun stringify :: "char json \<Rightarrow> string" where
  "stringify JNull = ''null''"
| "stringify (JBool b) = (if b then ''true'' else ''false'')"
| "stringify (JNum n) = n"
| "stringify (JStr s) = quoteJSONString s"
| "stringify (JArr vs) = ''['' @ join '','' (map stringify vs) @ '']''"
| "stringify (JObj ms) =
     ''{'' @ join '','' (map (\<lambda>m. quoteJSONString (fst m) @ '':'' @ stringify (snd m)) ms) @ ''}''"

text \<open>The JSON grammar, read by recursive descent.\<close>

definition isWs :: "char \<Rightarrow> bool" where
  "isWs c \<longleftrightarrow> c = CHR '' '' \<or> c = CHR 0x09 \<or> c = CHR 0x0A \<or> c = CHR 0x0D"

definition skipWs :: "string \<Rightarrow> string" where
  "skipWs s = dropWhile isWs s"

definition isDigit :: "char \<Rightarrow> bool" where
  "isDigit c \<longleftrightarrow> 48 \<le> (of_char c :: nat) \<and> (of_char c :: nat) \<le> 57"

definition hexVal :: "char \<Rightarrow> nat option" where
  "hexVal c =
     (let n = (of_char c :: nat) in
      if 48 \<le> n \<and> n \<le> 57 then Some (n - 48)
      else if 97 \<le> n \<and> n \<le> 102 then Some (n - 87)
      else if 65 \<le> n \<and> n \<le> 70 then Some (n - 55)
      else None)"

definition hex4 :: "char \<Rightarrow> char \<Rightarrow> char \<Rightarrow> char \<Rightarrow> nat option" where
  "hex4 a b c d =
     (case (hexVal a, hexVal b, hexVal c, hexVal d) of
        (Some w, Some x, Some y, Some z) \<Rightarrow> Some (((w * 16 + x) * 16 + y) * 16 + z)
      | _ \<Rightarrow> None)"

definition unescape :: "char \<Rightarrow> char option" where
  "unescape e =
     (if e = dquote then Some dquote
      else if e = backslash then Some backslash
      else if e = CHR ''/'' then Some (CHR ''/'')
      else if e = CHR ''b'' then Some (CHR 0x08)
      else if e = CHR ''f'' then Some (CHR 0x0C)
      else if e = CHR ''n'' then Some (CHR 0x0A)
      else if e = CHR ''r'' then Some (CHR 0x0D)
      else if e = CHR ''t'' then Some (CHR 0x09)
      else None)"

definition consFst :: "'a \<Rightarrow> ('a list \<times> 'b) option \<Rightarrow> ('a list \<times> 'b) option" where
  "consFst x r = (case r of None \<Rightarrow> None | Some (xs, rest) \<Rightarrow> Some (x # xs, rest))"

text \<open>
  The code units of a string literal after its opening quote, up to the closing quote.
\<close>

fun parseChars :: "string \<Rightarrow> (nat list \<times> string) option" where
  "parseChars [] = None"
| "parseChars (c # cs) =
     (if c = dquote then Some ([], cs)
      else if c = backslash then
        (case cs of
           [] \<Rightarrow> None
         | e # cs' \<Rightarrow>
             if e = CHR ''u'' then
               (case cs' of
                  h1 # h2 # h3 # h4 # cs'' \<Rightarrow>
                    (case hex4 h1 h2 h3 h4 of
                       Some n \<Rightarrow> consFst n (parseChars cs'')
                     | None \<Rightarrow> None)
                | _ \<Rightarrow> None)
             else
               (case unescape e of
                  Some ch \<Rightarrow> consFst (of_char ch) (parseChars cs')
                | None \<Rightarrow> None))
      else if (of_char c :: nat) < 32 then None
      else consFst (of_char c) (parseChars cs))"

text \<open>A number literal: its text and the rest of the input.\<close>

definition parseDigits :: "string \<Rightarrow> (string \<times> string) option" where
  "parseDigits s =
     (if takeWhile isDigit s = [] then None else Some (takeWhile isDigit s, dropWhile isDigit s))"

definition parseNumber :: "string \<Rightarrow> (string \<times> string) option" where
  "parseNumber s =
     (let sign = (if s \<noteq> [] \<and> hd s = CHR ''-'' then ''-'' else []);
          s1 = drop (length sign) s
      in case parseDigits s1 of
        None \<Rightarrow> None
      | Some (ds, s2) \<Rightarrow>
          if hd ds = CHR ''0'' \<and> length ds > 1 then None
          else
            (case (if s2 \<noteq> [] \<and> hd s2 = CHR ''.''
                   then map_option (\<lambda>(fs, r). (CHR ''.'' # fs, r)) (parseDigits (tl s2))
                   else Some ([], s2)) of
               None \<Rightarrow> None
             | Some (frac, s3) \<Rightarrow>
                 if s3 \<noteq> [] \<and> (hd s3 = CHR ''e'' \<or> hd s3 = CHR ''E'') then
                   (let s4 = tl s3;
                        esign = (if s4 \<noteq> [] \<and> (hd s4 = CHR ''+'' \<or> hd s4 = CHR ''-'')
                                 then [hd s4] else [])
                    in case parseDigits (drop (length esign) s4) of
                      None \<Rightarrow> None
                    | Some (es, s5) \<Rightarrow> Some (sign @ ds @ frac @ [hd s3] @ esign @ es, s5))
                 else Some (sign @ ds @ frac, s3)))"

text \<open>
  Values, the elements of an array after its bracket, and the members of an object after its
  brace. The first argument bounds the number of nested calls; \<open>JSON_parse\<close> starts with a
  bound that no input reaches.
\<close>

fun parseValue :: "nat \<Rightarrow> string \<Rightarrow> (nat json \<times> string) option"
  and parseElements :: "nat \<Rightarrow> string \<Rightarrow> (nat json list \<times> string) option"
  and parseMembers :: "nat \<Rightarrow> string \<Rightarrow> ((nat list \<times> nat json) list \<times> string) option"
  where
  "parseValue 0 s = None"
| "parseValue (Suc n) s =
     (case skipWs s of
        [] \<Rightarrow> None
      | c # cs \<Rightarrow>
          if c = CHR ''['' then
            (case skipWs cs of
               [] \<Rightarrow> None
             | c' # cs' \<Rightarrow>
                 if c' = CHR '']'' then Some (JArr [], cs')
                 else map_option (\<lambda>(vs, r). (JArr vs, r)) (parseElements n (c' # cs')))
          else if c = CHR ''{'' then
            (case skipWs cs of
               [] \<Rightarrow> None
             | c' # cs' \<Rightarrow>
                 if c' = CHR ''}'' then Some (JObj [], cs')
                 else map_option (\<lambda>(ms, r). (JObj ms, r)) (parseMembers n (c' # cs')))
          else if c = dquote then map_option (\<lambda>(str, r). (JStr str, r)) (parseChars cs)
          else if take 4 (c # cs) = ''null'' then Some (JNull, drop 4 (c # cs))
          else if take 4 (c # cs) = ''true'' then Some (JBool True, drop 4 (c # cs))
          else if take 5 (c # cs) = ''false'' then Some (JBool False, drop 5 (c # cs))
          else map_option (\<lambda>(num, r). (JNum num, r)) (parseNumber (c # cs)))"
| "parseElements 0 s = None"
| "parseElements (Suc n) s =
     (case parseValue n s of
        None \<Rightarrow> None
      | Some (v, r) \<Rightarrow>
          (case skipWs r of
             [] \<Rightarrow> None
           | c # cs \<Rightarrow>
               if c = CHR '','' then consFst v (parseElements n cs)
               else if c = CHR '']'' then Some ([v], cs)
               else None))"
| "parseMembers 0 s = None"
| "parseMembers (Suc n) s =
     (case skipWs s of
        [] \<Rightarrow> None
      | c # cs \<Rightarrow>
          if c = dquote then
            (case parseChars cs of
               None \<Rightarrow> None
             | Some (k, r) \<Rightarrow>
                 (case skipWs r of
                    [] \<Rightarrow> None
                  | c2 # r2 \<Rightarrow>
                      if c2 = CHR '':'' then
                        (case parseValue n r2 of
                           None \<Rightarrow> None
                         | Some (v, r3) \<Rightarrow>
                             (case skipWs r3 of
                                [] \<Rightarrow> None
                              | c3 # r4 \<Rightarrow>
                                  if c3 = CHR '','' then consFst (k, v) (parseMembers n r4)
                                  else if c3 = CHR ''}'' then Some ([(k, v)], r4)
                                  else None))
                      else None))
          else None)"

text \<open>\<^verbatim>\<open>JSON.parse\<close>; \<open>None\<close> is the \<^verbatim>\<open>SyntaxError\<close>.\<close>

definition JSON_parse :: "string \<Rightarrow> nat json option" where
  "JSON_parse s =
     (case parseValue (2 * length s + 2) s of
        None \<Rightarrow> None
      | Some (v, r) \<Rightarrow> if skipWs r = [] then Some v else None)"

text \<open>
  The iterator as the JavaScript value it is: an array of objects with the three properties
  in the order in which \<^verbatim>\<open>makeIterationFromFolder\<close> creates them.
\<close>

definition tokenJSON :: "string option \<Rightarrow> char json" where
  "tokenJSON t = (case t of None \<Rightarrow> JNull | Some s \<Rightarrow> JStr s)"

definition iterationJSON :: "(string, string) iteration \<Rightarrow> char json" where
  "iterationJSON it =
     JObj [(''folderName'', JStr (folderName it)),
           (''fileIteratorContinuationToken'', tokenJSON (fileIteratorContinuationToken it)),
           (''folderIteratorContinuationToken'', tokenJSON (folderIteratorContinuationToken it))]"

definition iteratorJSON :: "(string, string) iteration list \<Rightarrow> char json" where
  "iteratorJSON recursiveIterator = JArr (map iterationJSON recursiveIterator)"


definition narrow :: "nat list \<Rightarrow> string option" where
  "narrow ns = (if list_all (\<lambda>n. n < 256) ns then Some (map char_of ns) else None)"

text \<open>
  The way back, for a parsed value that the script uses as its iterator. The script has no
  check of its own: \<^verbatim>\<open>recursiveIterator.map\<close> throws a \<^verbatim>\<open>TypeError\<close> on a value that is
  not an array and on an array with a \<^verbatim>\<open>null\<close> element. With an array whose elements are
  not all of the shape above, or hold a code unit above 255, the script goes on; such an
  array is outside the record type of this model and is reported as such.
\<close>

datatype 'a result = Returns 'a | Throws error | OutsideModel

definition jsonToken :: "nat json \<Rightarrow> string option option" where
  "jsonToken v =
     (case v of JNull \<Rightarrow> Some None | JStr s \<Rightarrow> map_option Some (narrow s) | _ \<Rightarrow> None)"

definition jsonIteration :: "nat json \<Rightarrow> (string, string) iteration option" where
  "jsonIteration v =
     (case v of
        JObj [(k1, JStr n), (k2, t1), (k3, t2)] \<Rightarrow>
          if k1 = map of_char ''folderName''
             \<and> k2 = map of_char ''fileIteratorContinuationToken''
             \<and> k3 = map of_char ''folderIteratorContinuationToken''
          then (case (narrow n, jsonToken t1, jsonToken t2) of
                  (Some name, Some ft, Some dt) \<Rightarrow>
                    Some \<lparr> folderName = name, fileIteratorContinuationToken = ft,
                           folderIteratorContinuationToken = dt \<rparr>
                | _ \<Rightarrow> None)
          else None
      | _ \<Rightarrow> None)"

definition jsonIterator :: "nat json \<Rightarrow> (string, string) iteration list result" where
  "jsonIterator v =
     (case v of
        JArr vs \<Rightarrow>
          if JNull \<in> set vs then Throws TypeError
          else (case those (map jsonIteration vs) of
                  Some recursiveIterator \<Rightarrow> Returns recursiveIterator
                | None \<Rightarrow> OutsideModel)
      | _ \<Rightarrow> Throws TypeError)"



section \<open>The report spreadsheet and the configuration\<close>

text \<open>
  A spreadsheet with its active sheet; \<^verbatim>\<open>insertSheet(0)\<close> puts a new, empty sheet in front
  and makes it the active one. Cells are addressed by row and column, counted from 0, so
  \<^verbatim>\<open>B1\<close>, \<^verbatim>\<open>B2\<close> and \<^verbatim>\<open>B3\<close> are \<open>(0, 1)\<close>, \<open>(1, 1)\<close> and \<open>(2, 1)\<close>. A cell that
  is not there reads as the empty string, and writing to it extends the sheet.
\<close>

record spreadsheet =
  activeSheet :: sheet
  otherSheets :: "sheet list"

definition REPORT_SPREADSHEET_CELL_LAST_RUN :: "nat \<times> nat" where
  "REPORT_SPREADSHEET_CELL_LAST_RUN = (0, 1)"

definition REPORT_SPREADSHEET_CELL_ITERATIONS :: "nat \<times> nat" where
  "REPORT_SPREADSHEET_CELL_ITERATIONS = (1, 1)"

definition REPORT_SPREADSHEET_CELL_ITERATION_FINISHED :: "nat \<times> nat" where
  "REPORT_SPREADSHEET_CELL_ITERATION_FINISHED = (2, 1)"

text \<open>
  The limit of four minutes is the one of \<^verbatim>\<open>list_shared_files_and_folders.js\<close>; the earlier
  state of the script kept beside it has five.
\<close>

definition MAX_EXECUTION_TIME_IN_MS :: int where
  "MAX_EXECUTION_TIME_IN_MS = 4 * 60 * 1000"

definition RECURSIVE_ITERATOR_KEY :: string where
  "RECURSIVE_ITERATOR_KEY = ''RECURSIVE_ITERATOR_KEY''"

record config =
  START_FOLDER_PATH :: string
  FORCE_NEW_ITERATION :: bool

definition getValue :: "nat \<times> nat \<Rightarrow> sheet \<Rightarrow> cell" where
  "getValue rc sh =
     (if fst rc < length sh \<and> snd rc < length (sh ! fst rc) then sh ! fst rc ! snd rc
      else Text [])"

definition setValue :: "nat \<times> nat \<Rightarrow> cell \<Rightarrow> sheet \<Rightarrow> sheet" where
  "setValue rc v sh =
     (let sh' = sh @ replicate (Suc (fst rc) - length sh) [];
          row = sh' ! fst rc;
          row' = (row @ replicate (Suc (snd rc) - length row) (Text []))[snd rc := v]
      in sh'[fst rc := row'])"

text \<open>
  \<^verbatim>\<open>getValue() + 1\<close>: concatenation on a string, addition on a number. The script adds in
  double precision, which is exact as long as the number and its successor are integers of
  at most \<open>2 ^ 53\<close> in size; the model covers these numbers and reports the others as outside
  it (\<open>None\<close>).
\<close>

definition plusOne :: "cell \<Rightarrow> cell option" where
  "plusOne v =
     (case v of
        Number n \<Rightarrow> if - (2 ^ 53) \<le> n \<and> n < 2 ^ 53 then Some (Number (n + 1)) else None
      | Text t \<Rightarrow> Some (Text (t @ ''1'')))"

text \<open>
  \<^verbatim>\<open>prepareSpreadsheetForReport\<close>: the spreadsheet of the report's name if there is one,
  a new one with a single empty sheet otherwise.
\<close>

definition prepareSpreadsheetForReport :: "spreadsheet option \<Rightarrow> spreadsheet" where
  "prepareSpreadsheetForReport existing =
     (case existing of
        Some ss \<Rightarrow> ss
      | None \<Rightarrow> \<lparr> activeSheet = [], otherSheets = [] \<rparr>)"

text \<open>\<open>now\<close> is the text of \<^verbatim>\<open>(new Date()).toLocaleString()\<close>.\<close>

definition createNewSheet :: "string \<Rightarrow> spreadsheet \<Rightarrow> spreadsheet" where
  "createNewSheet now ss =
     \<lparr> activeSheet =
         appendRow [Text ''Name'', Text ''Type'', Text ''Shared'']
           (appendRow [Text ''Iteration finished'', Text ''running'']
              (appendRow [Text ''Number of runs'', Number 1]
                 (appendRow [Text ''Start time of the last run'', Text now] []))),
       otherSheets = activeSheet ss # otherSheets ss \<rparr>"

definition updateSheet :: "string \<Rightarrow> spreadsheet \<Rightarrow> spreadsheet option" where
  "updateSheet now ss =
     (let sheet = activeSheet ss;
          sheet1 = setValue REPORT_SPREADSHEET_CELL_LAST_RUN (Text now) sheet
      in case plusOne (getValue REPORT_SPREADSHEET_CELL_ITERATIONS sheet1) of
        None \<Rightarrow> None
      | Some runs \<Rightarrow>
          let sheet2 = setValue REPORT_SPREADSHEET_CELL_ITERATIONS runs sheet1;
              sheet3 = setValue REPORT_SPREADSHEET_CELL_ITERATION_FINISHED (Text ''running'')
                         sheet2
          in Some (ss\<lparr>activeSheet := sheet3\<rparr>))"


section \<open>Choosing where to start\<close>

text \<open>\<^verbatim>\<open>String.prototype.split\<close> with a one-character separator.\<close>

fun split :: "char \<Rightarrow> string \<Rightarrow> string list" where
  "split sep [] = [[]]"
| "split sep (c # cs) =
     (if c = sep then [] # split sep cs
      else (case split sep cs of [] \<Rightarrow> [[c]] | p # ps \<Rightarrow> (c # p) # ps))"

text \<open>The loop of \<^verbatim>\<open>getFolderByPath\<close>; \<open>None\<close> is the \<^verbatim>\<open>null\<close> it returns.\<close>

fun walkPath ::
  "('f, 'd) drive \<Rightarrow> ('f, 'd) folder \<Rightarrow> string list \<Rightarrow> ('f, 'd) folder option" where
  "walkPath drv currentFolder [] = Some currentFolder"
| "walkPath drv currentFolder (name # folders) =
     (case getFoldersByName drv currentFolder name of
        Some subfolder \<Rightarrow> walkPath drv subfolder folders
      | None \<Rightarrow> None)"

definition getFolderByPath :: "('f, 'd) drive \<Rightarrow> string \<Rightarrow> ('f, 'd) folder option" where
  "getFolderByPath drv path = walkPath drv (getRootFolder drv) (split (CHR ''/'') path)"

text \<open>
  \<^verbatim>\<open>prepareIteration\<close>. \<open>property\<close> is the user property under
  \<^verbatim>\<open>RECURSIVE_ITERATOR_KEY\<close>; \<^verbatim>\<open>getProperty\<close> gives \<^verbatim>\<open>null\<close> when there is none, which
  \<^verbatim>\<open>JSON.parse\<close> reads as the text \<^verbatim>\<open>null\<close>. The property is parsed before anything else
  is looked at. \<^verbatim>\<open>makeIterationFromFolder(null)\<close> is a \<^verbatim>\<open>TypeError\<close>.
\<close>

definition prepareIteration ::
  "config \<Rightarrow> (string, string) drive \<Rightarrow> string option \<Rightarrow> string \<Rightarrow> spreadsheet \<Rightarrow>
     (string, string) iteration list result \<times> spreadsheet" where
  "prepareIteration cfg drv property now spreadsheet =
     (case JSON_parse (case property of None \<Rightarrow> ''null'' | Some v \<Rightarrow> v) of
        None \<Rightarrow> (Throws SyntaxError, spreadsheet)
      | Some recursiveIterator \<Rightarrow>
          if FORCE_NEW_ITERATION cfg = True then
            (Returns [makeIterationFromFolder (getRootFolder drv)],
             createNewSheet now spreadsheet)
          else if START_FOLDER_PATH cfg \<noteq> [] then
            (case getFolderByPath drv (START_FOLDER_PATH cfg) of
               None \<Rightarrow> (Throws TypeError, spreadsheet)
             | Some folder \<Rightarrow>
                 (Returns [makeIterationFromFolder folder], createNewSheet now spreadsheet))
          else if recursiveIterator \<noteq> JNull then
            (case jsonIterator recursiveIterator of
               Returns its \<Rightarrow>
                 (case updateSheet now spreadsheet of
                    Some spreadsheet' \<Rightarrow> (Returns its, spreadsheet')
                  | None \<Rightarrow> (OutsideModel, spreadsheet))
             | Throws e \<Rightarrow> (Throws e, spreadsheet)
             | OutsideModel \<Rightarrow> (OutsideModel, spreadsheet))
          else
            (Returns [makeIterationFromFolder (getRootFolder drv)],
             createNewSheet now spreadsheet))"


section \<open>The invocation\<close>

text \<open>
  \<^verbatim>\<open>prettyPrintUserProperties\<close> writes to the log only, but it parses the text it has
  rewritten, and \<^verbatim>\<open>JSON.parse\<close> can throw. The script sets no other user property than the
  iterator's, so \<^verbatim>\<open>getProperties()\<close> has that one or none.
\<close>

fun replaceFirst :: "string \<Rightarrow> string \<Rightarrow> string \<Rightarrow> string" where
  "replaceFirst pat rep [] = (if pat = [] then rep else [])"
| "replaceFirst pat rep (c # cs) =
     (if take (length pat) (c # cs) = pat then rep @ drop (length pat) (c # cs)
      else c # replaceFirst pat rep cs)"

text \<open>
  \<^verbatim>\<open>lastIndexOf\<close>: the last position at which the pattern occurs, \<open>None\<close> for \<^verbatim>\<open>-1\<close>.
  \<open>lastIndexFrom i pat s\<close> looks at \<open>s\<close> as the part of the text from position \<open>i\<close> on.
\<close>

fun lastIndexFrom :: "nat \<Rightarrow> string \<Rightarrow> string \<Rightarrow> nat option" where
  "lastIndexFrom i pat [] = (if pat = [] then Some i else None)"
| "lastIndexFrom i pat (c # cs) =
     (case lastIndexFrom (Suc i) pat cs of
        Some j \<Rightarrow> Some j
      | None \<Rightarrow> if take (length pat) (c # cs) = pat then Some i else None)"

definition lastIndexOf :: "string \<Rightarrow> string \<Rightarrow> nat option" where
  "lastIndexOf s pat = lastIndexFrom 0 pat s"

definition prettyPrintUserProperties :: "string option \<Rightarrow> error option" where
  "prettyPrintUserProperties property =
     (let properties = JObj (case property of
                               None \<Rightarrow> []
                             | Some v \<Rightarrow> [(RECURSIVE_ITERATOR_KEY, JStr v)]);
          formatted1 = filter (\<lambda>c. c \<noteq> backslash) (stringify properties);
          formatted2 = replaceFirst [dquote, CHR ''[''] ''['' formatted1;
          formatted3 = (case lastIndexOf formatted2 [CHR '']'', dquote] of
                          None \<Rightarrow> formatted2
                        | Some i \<Rightarrow>
                            take i formatted2 @
                            replaceFirst [CHR '']'', dquote] '']'' (drop i formatted2))
      in case JSON_parse formatted3 of None \<Rightarrow> Some SyntaxError | Some v \<Rightarrow> None)"

text \<open>
  The \<^verbatim>\<open>while\<close> loop of \<^verbatim>\<open>main\<close> and what follows it. \<open>clock k\<close> is the \<open>k\<close>-th reading of
  \<^verbatim>\<open>(new Date()).getTime()\<close> in the invocation, \<open>clock 0\<close> being \<^verbatim>\<open>startTime\<close>. The result
  is what the invocation threw, if anything, with the sheet and the user property as it
  leaves them; \<open>None\<close> stands for a loop that does not return.
\<close>

partial_function (option) mainLoop ::
  "(string, string) drive \<Rightarrow> (nat \<Rightarrow> int) \<Rightarrow> nat \<Rightarrow> (string, string) iteration list \<Rightarrow>
     sheet \<Rightarrow> string option \<Rightarrow> (error option \<times> sheet \<times> string option) option" where
  "mainLoop drv clock k recursiveIterator sheet property =
     (if recursiveIterator \<noteq> [] then
        case listFilesAndFolders drv recursiveIterator sheet of
          (Inl e, sheet') \<Rightarrow> Some (Some e, sheet', property)
        | (Inr recursiveIterator', sheet') \<Rightarrow>
            let elapsedTimeInMS = clock k - clock 0;
                timeLimitExceeded = (elapsedTimeInMS \<ge> MAX_EXECUTION_TIME_IN_MS)
            in if timeLimitExceeded then
                 let property' = Some (stringify (iteratorJSON recursiveIterator'));
                     sheet'' = setValue REPORT_SPREADSHEET_CELL_ITERATION_FINISHED (Text ''no'') sheet'
                 in Some (prettyPrintUserProperties property', sheet'', property')
               else mainLoop drv clock (Suc k) recursiveIterator' sheet' property
      else
        Some (None,
              setValue REPORT_SPREADSHEET_CELL_ITERATION_FINISHED (Text ''yes'') sheet,
              None))"

declare mainLoop.simps [code]

record world =
  userProperty :: "string option"
  reportSpreadsheet :: "spreadsheet option"

definition main ::
  "config \<Rightarrow> (string, string) drive \<Rightarrow> (nat \<Rightarrow> int) \<Rightarrow> string \<Rightarrow> world \<Rightarrow>
     (unit result \<times> world) option" where
  "main cfg drv clock now w =
     (case prettyPrintUserProperties (userProperty w) of
        Some e \<Rightarrow> Some (Throws e, w)
      | None \<Rightarrow>
          let spreadsheet = prepareSpreadsheetForReport (reportSpreadsheet w)
          in case prepareIteration cfg drv (userProperty w) now spreadsheet of
            (Throws e, spreadsheet') \<Rightarrow>
              Some (Throws e, w\<lparr>reportSpreadsheet := Some spreadsheet'\<rparr>)
          | (OutsideModel, spreadsheet') \<Rightarrow>
              Some (OutsideModel, w\<lparr>reportSpreadsheet := Some spreadsheet'\<rparr>)
          | (Returns recursiveIterator, spreadsheet') \<Rightarrow>
              (case mainLoop drv clock 1 recursiveIterator (activeSheet spreadsheet')
                      (userProperty w) of
                 None \<Rightarrow> None
               | Some (thrown, sheet, property) \<Rightarrow>
                   Some ((case thrown of None \<Rightarrow> Returns () | Some e \<Rightarrow> Throws e),
                         \<lparr> userProperty = property,
                           reportSpreadsheet = Some (spreadsheet'\<lparr>activeSheet := sheet\<rparr>) \<rparr>)))"



section \<open>What an iterator over a finite Drive still has to do\<close>

text \<open>
  For the proofs about \<open>treeDrive\<close>: the rows and the calls that are still to come from one
  entry of the iterator and from the whole iterator, the last entry first. \<open>names\<close> are the
  names of the entries in front of the ones looked at.
\<close>

definition childRows :: "string \<Rightarrow> string list \<Rightarrow> tree \<Rightarrow> cell list list" where
  "childRows me names d =
     reportRow me names ''Folder'' (treeItem d) @
     expectedRows me (names @ [itemName (treeItem d)]) d"

definition frameRows ::
  "string \<Rightarrow> string list \<Rightarrow> (item list, tree list) iteration \<Rightarrow> cell list list" where
  "frameRows me names fr =
     (case fileIteratorContinuationToken fr of
        Some fs \<Rightarrow> concat (map (reportRow me names ''File'') fs)
      | None \<Rightarrow> []) @
     (case folderIteratorContinuationToken fr of
        Some ds \<Rightarrow> concat (map (childRows me names) ds)
      | None \<Rightarrow> [])"

fun pendingRows ::
  "string \<Rightarrow> string list \<Rightarrow> (item list, tree list) iteration list \<Rightarrow> cell list list" where
  "pendingRows me names [] = []"
| "pendingRows me names (fr # rest) =
     pendingRows me (names @ [folderName fr]) rest @ frameRows me (names @ [folderName fr]) fr"

definition frameTrace :: "(item list, tree list) iteration \<Rightarrow> stepKind list" where
  "frameTrace fr =
     (case fileIteratorContinuationToken fr of
        Some fs \<Rightarrow> replicate (Suc (length fs)) LeafAdvance
      | None \<Rightarrow> []) @
     (case folderIteratorContinuationToken fr of
        Some ds \<Rightarrow> concat (map (\<lambda>d. ChildAdvance # expectedTrace d) ds) @ [Pop]
      | None \<Rightarrow> [])"

definition pendingTrace :: "(item list, tree list) iteration list \<Rightarrow> stepKind list" where
  "pendingTrace recursiveIterator = concat (map frameTrace (rev recursiveIterator))"

text \<open>No entry has lost its folder token: the script never sets that token to \<^verbatim>\<open>null\<close>.\<close>

definition hasFolderTokens :: "('f, 'd) iteration list \<Rightarrow> bool" where
  "hasFolderTokens recursiveIterator \<longleftrightarrow>
     list_all (\<lambda>fr. folderIteratorContinuationToken fr \<noteq> None) recursiveIterator"



section \<open>Example Drives\<close>

text \<open>An item that the effective user \<^verbatim>\<open>me@example.com\<close> owns and has shared with nobody by name.\<close>

definition ownItem :: "string \<Rightarrow> Access \<Rightarrow> item" where
  "ownItem n a =
     \<lparr> itemName = n, sharingAccess = a, ownerEmail = ''me@example.com'',
       viewerEmails = [], editorEmails = [] \<rparr>"

text \<open>
  The scenario of the specification: the root holds the shared file \<^verbatim>\<open>a.txt\<close> and the private
  folder \<^verbatim>\<open>sub\<close>, which holds the shared file \<^verbatim>\<open>b.txt\<close>.
\<close>

definition scenarioTree :: tree where
  "scenarioTree =
     Folder (ownItem ''My Drive'' PRIVATE) [ownItem ''a.txt'' ANYONE_WITH_LINK]
       [Folder (ownItem ''sub'' PRIVATE) [ownItem ''b.txt'' ANYONE_WITH_LINK] []]"

text \<open>A Drive with string tokens whose root folder is empty.\<close>

definition emptyDrive :: "(string, string) drive" where
  "emptyDrive =
     \<lparr> effectiveUser = ''me@example.com'',
       getRootFolder = \<lparr> folderItem = ownItem ''My Drive'' PRIVATE,
                         getFiles = ''files-of-root'', getFolders = ''folders-of-root'' \<rparr>,
       continueFileIterator = (\<lambda>tok. None),
       continueFolderIterator = (\<lambda>tok. None),
       getFoldersByName = (\<lambda>f n. None) \<rparr>"

text \<open>
  A Drive with string tokens whose root holds one folder, named \<^verbatim>\<open>a"b\<close>, with the shared
  file \<^verbatim>\<open>f.txt\<close> in it.
\<close>

definition quotedFolder :: "(string, string) folder" where
  "quotedFolder =
     \<lparr> folderItem = ownItem [CHR ''a'', dquote, CHR ''b''] PRIVATE,
       getFiles = ''files-of-sub'', getFolders = ''folders-of-sub'' \<rparr>"

definition quotedDrive :: "(string, string) drive" where
  "quotedDrive =
     \<lparr> effectiveUser = ''me@example.com'',
       getRootFolder = \<lparr> folderItem = ownItem ''My Drive'' PRIVATE,
                         getFiles = ''files-of-root'', getFolders = ''folders-of-root'' \<rparr>,
       continueFileIterator =
         (\<lambda>tok. if tok = ''files-of-sub''
                then Some (ownItem ''f.txt'' ANYONE_WITH_LINK, ''files-of-sub-1'') else None),
       continueFolderIterator =
         (\<lambda>tok. if tok = ''folders-of-root''
                then Some (quotedFolder, ''folders-of-root-1'') else None),
       getFoldersByName =
         (\<lambda>f n. if f = \<lparr> folderItem = ownItem ''My Drive'' PRIVATE,
                           getFiles = ''files-of-root'', getFolders = ''folders-of-root'' \<rparr>
                     \<and> n = [CHR ''a'', dquote, CHR ''b'']
                  then Some quotedFolder else None) \<rparr>"

text \<open>
  The iterator in \<open>quotedDrive\<close> after two calls from the root: the root's files are done, its
  first folder has been entered.
\<close>

definition quotedIterator :: "(string, string) iteration list" where
  "quotedIterator =
     [\<lparr> folderName = ''My Drive'', fileIteratorContinuationToken = None,
        folderIteratorContinuationToken = Some ''folders-of-root-1'' \<rparr>,
      \<lparr> folderName = [CHR ''a'', dquote, CHR ''b''],
        fileIteratorContinuationToken = Some ''files-of-sub'',
        folderIteratorContinuationToken = Some ''folders-of-sub'' \<rparr>]"

text \<open>The default configuration of the script, and a clock that reaches the limit at its
  \<open>n\<close>-th reading.\<close>

definition defaultConfig :: config where
  "defaultConfig = \<lparr> START_FOLDER_PATH = [], FORCE_NEW_ITERATION = False \<rparr>"

definition limitAt :: "nat \<Rightarrow> nat \<Rightarrow> int" where
  "limitAt n k = (if k < n then 0 else MAX_EXECUTION_TIME_IN_MS)"

definition freshSheet :: "string \<Rightarrow> string \<Rightarrow> sheet" where
  "freshSheet now finished =
     [[Text ''Start time of the last run'', Text now],
      [Text ''Number of runs'', Number 1],
      [Text ''Iteration finished'', Text finished],
      [Text ''Name'', Text ''Type'', Text ''Shared'']]"


section \<open>Classification\<close>

lemma othersHaveAccess_iff:
  "othersHaveAccess me us \<longleftrightarrow> (\<exists>u \<in> set us. u \<noteq> me)"
  by (induction us) auto

text \<open>
  C5. \<open>getSharingAccess\<close> answers \<^verbatim>\<open>"Private"\<close> exactly when the item's sharing access
  is \<^verbatim>\<open>PRIVATE\<close>, its owner is the effective user, and every viewer and every editor is
  the effective user; in every other case it answers \<^verbatim>\<open>"Shared"\<close>.
\<close>

theorem getSharingAccess_private_iff:
  "(getSharingAccess me it = ''Private'' \<longleftrightarrow>
      sharingAccess it = PRIVATE \<and> ownerEmail it = me \<and>
      (\<forall>v \<in> set (viewerEmails it). v = me) \<and> (\<forall>e \<in> set (editorEmails it). e = me))
   \<and> (getSharingAccess me it \<noteq> ''Private'' \<longrightarrow> getSharingAccess me it = ''Shared'')"
  by (auto simp: getSharingAccess_def othersHaveAccess_iff)

theorem getSharingAccess_private_iff_witness:
  "getSharingAccess ''me@example.com''
     \<lparr> itemName = ''notes.txt'', sharingAccess = PRIVATE, ownerEmail = ''me@example.com'',
       viewerEmails = [''me@example.com''], editorEmails = [] \<rparr> = ''Private''
   \<and> getSharingAccess ''me@example.com''
     \<lparr> itemName = ''notes.txt'', sharingAccess = PRIVATE, ownerEmail = ''me@example.com'',
       viewerEmails = [''me@example.com'', ''you@example.com''], editorEmails = [] \<rparr> = ''Shared''"
  using getSharingAccess_private_iff [of "''me@example.com''"
      "\<lparr> itemName = ''notes.txt'', sharingAccess = PRIVATE, ownerEmail = ''me@example.com'',
         viewerEmails = [''me@example.com''], editorEmails = [] \<rparr>"]
    getSharingAccess_private_iff [of "''me@example.com''"
      "\<lparr> itemName = ''notes.txt'', sharingAccess = PRIVATE, ownerEmail = ''me@example.com'',
         viewerEmails = [''me@example.com'', ''you@example.com''], editorEmails = [] \<rparr>"]
  by simp

section \<open>Properties of one call\<close>

lemma step_snoc:
  "listFilesAndFolders drv (below @ [cur]) sheet =
     (case fileIteratorContinuationToken cur of
        Some ftok \<Rightarrow>
          (case continueFileIterator drv ftok of
             Some (file, ftok') \<Rightarrow>
               (Inr (below @ [cur\<lparr>fileIteratorContinuationToken := Some ftok'\<rparr>]),
                sheet @ reportRow (effectiveUser drv) (map folderName (below @ [cur])) ''File'' file)
           | None \<Rightarrow> (Inr (below @ [cur\<lparr>fileIteratorContinuationToken := None\<rparr>]), sheet))
      | None \<Rightarrow>
          (case folderIteratorContinuationToken cur of
             Some dtok \<Rightarrow>
               (case continueFolderIterator drv dtok of
                  Some (folder, dtok') \<Rightarrow>
                    (Inr (below @ [cur\<lparr>folderIteratorContinuationToken := Some dtok'\<rparr>,
                                   makeIterationFromFolder folder]),
                     sheet @ reportRow (effectiveUser drv) (map folderName (below @ [cur]))
                               ''Folder'' (folderItem folder))
                | None \<Rightarrow> (Inr below, sheet))
           | None \<Rightarrow> (Inl (Thrown ''Should never get here. Iterator failure!''), sheet)))"
  by (simp add: listFilesAndFolders_def reportRow_def appendRow_def Let_def
           split: option.splits prod.splits)

lemma yielded_snoc:
  "yielded drv (below @ [cur]) =
     (case fileIteratorContinuationToken cur of
        Some ftok \<Rightarrow> map_option fst (continueFileIterator drv ftok)
      | None \<Rightarrow>
          (case folderIteratorContinuationToken cur of
             Some dtok \<Rightarrow> map_option (folderItem \<circ> fst) (continueFolderIterator drv dtok)
           | None \<Rightarrow> None))"
  by (simp add: yielded_def split: option.splits)

lemma stepKindOf_snoc:
  "stepKindOf drv (below @ [cur]) =
     (case fileIteratorContinuationToken cur of
        Some ftok \<Rightarrow> LeafAdvance
      | None \<Rightarrow>
          (case folderIteratorContinuationToken cur of
             Some dtok \<Rightarrow>
               (case continueFolderIterator drv dtok of Some x \<Rightarrow> ChildAdvance | None \<Rightarrow> Pop)
           | None \<Rightarrow> Failure))"
  by (simp add: stepKindOf_def split: option.splits)

lemma not_private_iff:
  "getSharingAccess me it \<noteq> ''Private'' \<longleftrightarrow> getSharingAccess me it = ''Shared''"
  by (simp add: getSharingAccess_def)

lemma step_sheet_indep:
  "fst (listFilesAndFolders drv st sh) = fst (listFilesAndFolders drv st sh2)"
proof (cases st rule: rev_cases)
  case Nil
  then show ?thesis by (simp add: listFilesAndFolders_def)
next
  case (snoc below cur)
  show ?thesis
    unfolding snoc step_snoc by (simp split: option.splits)
qed


text \<open>
  C6. A call of \<open>listFilesAndFolders\<close> leaves the rows of the sheet as they are and appends at
  most one row; it appends a row exactly when the call obtains a file or folder and that item
  is \<^verbatim>\<open>"Shared"\<close>. An item that is \<^verbatim>\<open>"Private"\<close> gives no row and no throw, and a call that
  obtains no item (a token set to \<^verbatim>\<open>null\<close>, a pop, a throw) appends nothing.
\<close>

theorem step_appends_iff_shared:
  "\<exists>rows. snd (listFilesAndFolders drv st sh) = sh @ rows \<and> length rows \<le> 1 \<and>
     (rows \<noteq> [] \<longleftrightarrow>
        (\<exists>n. yielded drv st = Some n \<and> getSharingAccess (effectiveUser drv) n = ''Shared'')) \<and>
     (\<forall>n. yielded drv st = Some n \<and> getSharingAccess (effectiveUser drv) n = ''Private''
          \<longrightarrow> rows = [] \<and> (\<exists>st'. fst (listFilesAndFolders drv st sh) = Inr st')) \<and>
     (yielded drv st = None \<longrightarrow> rows = [])"
proof (cases st rule: rev_cases)
  case Nil
  then show ?thesis by (simp add: listFilesAndFolders_def yielded_def)
next
  case (snoc below cur)
  show ?thesis
    unfolding snoc step_snoc yielded_snoc
    by (auto split: option.splits simp: reportRow_def not_private_iff)
qed


theorem step_appends_iff_shared_witness:
  "length (snd (listFilesAndFolders (treeDrive ''me@example.com'' scenarioTree)
      [makeIterationFromFolder (handle scenarioTree)] [])) = 1
   \<and> snd (listFilesAndFolders (treeDrive ''me@example.com'' scenarioTree)
      [\<lparr> folderName = ''My Drive'', fileIteratorContinuationToken = None,
         folderIteratorContinuationToken =
           Some [Folder (ownItem ''sub'' PRIVATE) [ownItem ''b.txt'' ANYONE_WITH_LINK] []] \<rparr>]
      []) = []"
  using
    step_appends_iff_shared [of "treeDrive ''me@example.com'' scenarioTree"
      "[makeIterationFromFolder (handle scenarioTree)]" "[]"]
    step_appends_iff_shared [of "treeDrive ''me@example.com'' scenarioTree"
      "[\<lparr> folderName = ''My Drive'', fileIteratorContinuationToken = None,
          folderIteratorContinuationToken =
            Some [Folder (ownItem ''sub'' PRIVATE) [ownItem ''b.txt'' ANYONE_WITH_LINK] []] \<rparr>]"
      "[]"]
  by (auto simp: yielded_def treeDrive_def scenarioTree_def makeIterationFromFolder_def
        getSharingAccess_def ownItem_def le_Suc_eq)

text \<open>
  C10. A call on a non-empty iterator leaves every entry below the last one as it is, and the
  length changes by at most one: it stays when a file token is advanced or set to \<^verbatim>\<open>null\<close>,
  grows by one when a folder is entered, and shrinks by one on a pop.
\<close>

theorem step_frame_effect:
  assumes "st \<noteq> []" and "listFilesAndFolders drv st sh = (Inr st', sh')"
  shows "take (length st - 1) st' = butlast st \<and>
         (\<forall>i < length st - 1. st' ! i = st ! i) \<and>
         (stepKindOf drv st = LeafAdvance \<and> length st' = length st \<or>
          stepKindOf drv st = ChildAdvance \<and> length st' = length st + 1 \<or>
          stepKindOf drv st = Pop \<and> length st' + 1 = length st)"
proof -
  from assms(1) obtain below cur where st: "st = below @ [cur]"
    by (cases st rule: rev_cases) auto
  show ?thesis
    using assms(2) unfolding st step_snoc stepKindOf_snoc
    by (auto split: option.splits simp: nth_append)
qed


theorem step_frame_effect_witness:
  "\<exists>st' sh'. listFilesAndFolders quotedDrive quotedIterator [] = (Inr st', sh') \<and>
      take 1 st' = butlast quotedIterator \<and> length st' = 2"
proof -
  obtain st' sh' where step: "listFilesAndFolders quotedDrive quotedIterator [] = (Inr st', sh')"
    by (simp add: listFilesAndFolders_def quotedDrive_def quotedIterator_def Let_def)
  have ne: "quotedIterator \<noteq> []"
    by (simp add: quotedIterator_def)
  from step_frame_effect [OF ne step] have
    "take 1 st' = butlast quotedIterator \<and> length st' = 2"
    by (simp add: stepKindOf_def quotedIterator_def)
  with step show ?thesis by blast
qed


section \<open>Properties of the iteration over a finite Drive\<close>

lemma expectedRows_eq:
  "expectedRows me names (Folder m fs ds) =
     concat (map (reportRow me names ''File'') fs) @ concat (map (childRows me names) ds)"
  by (simp add: childRows_def [abs_def])

lemma frameRows_make:
  "frameRows me names (makeIterationFromFolder (handle d)) = expectedRows me names d"
  by (cases d) (simp add: frameRows_def makeIterationFromFolder_def childRows_def [abs_def])

lemma folderToken_make:
  "folderIteratorContinuationToken (makeIterationFromFolder f) = Some (getFolders f)"
  by (simp add: makeIterationFromFolder_def)

lemma folderItem_handle: "folderItem (handle d) = treeItem d"
  by (cases d) simp

lemma frameTrace_make:
  "frameTrace (makeIterationFromFolder (handle d)) = expectedTrace d"
  by (cases d) (simp add: frameTrace_def makeIterationFromFolder_def)

lemma folderName_make:
  "folderName (makeIterationFromFolder (handle d)) = itemName (treeItem d)"
  by (cases d) (simp add: makeIterationFromFolder_def)

lemma pendingRows_snoc:
  "pendingRows me names (below @ [cur]) =
     frameRows me (names @ map folderName (below @ [cur])) cur @ pendingRows me names below"
  by (induction below arbitrary: names) auto

lemma pendingTrace_snoc:
  "pendingTrace (below @ [cur]) = frameTrace cur @ pendingTrace below"
  by (simp add: pendingTrace_def)

lemma hasFolderTokens_snoc:
  "hasFolderTokens (below @ [cur]) \<longleftrightarrow>
     folderIteratorContinuationToken cur \<noteq> None \<and> hasFolderTokens below"
  by (auto simp: hasFolderTokens_def)

lemma pendingRows_snoc2:
  "pendingRows me names (below @ [cur, new]) =
     frameRows me (names @ map folderName (below @ [cur, new])) new @
     frameRows me (names @ map folderName (below @ [cur])) cur @ pendingRows me names below"
  using pendingRows_snoc [of me names "below @ [cur]" new] pendingRows_snoc [of me names below cur]
  by simp

lemma pendingTrace_snoc2:
  "pendingTrace (below @ [cur, new]) = frameTrace new @ frameTrace cur @ pendingTrace below"
  by (simp add: pendingTrace_def)

lemma hasFolderTokens_snoc2:
  "hasFolderTokens (below @ [cur, new]) \<longleftrightarrow>
     folderIteratorContinuationToken new \<noteq> None \<and>
     folderIteratorContinuationToken cur \<noteq> None \<and> hasFolderTokens below"
  by (auto simp: hasFolderTokens_def)

lemma pendingTrace_empty_iff:
  "hasFolderTokens st \<Longrightarrow> pendingTrace st = [] \<longleftrightarrow> st = []"
  by (cases st rule: rev_cases)
     (auto simp: pendingTrace_snoc hasFolderTokens_snoc frameTrace_def pendingTrace_def)


text \<open>
  One call on a non-empty iterator over \<open>treeDrive\<close>: it does not throw, the rows it writes are
  the first of the rows to come, and its kind is the first of the calls to come.
\<close>

lemma tree_step:
  assumes "hasFolderTokens st" and "st \<noteq> []"
  shows "\<exists>st' rows.
           listFilesAndFolders (treeDrive me t) st sh = (Inr st', sh @ rows) \<and>
           hasFolderTokens st' \<and>
           rows @ pendingRows me [] st' = pendingRows me [] st \<and>
           stepKindOf (treeDrive me t) st # pendingTrace st' = pendingTrace st"
proof -
  from assms(2) obtain below cur where st: "st = below @ [cur]"
    by (cases st rule: rev_cases) auto
  from assms(1) obtain ds where ds: "folderIteratorContinuationToken cur = Some ds"
    and below: "hasFolderTokens below"
    by (auto simp: st hasFolderTokens_snoc)
  show ?thesis
  proof (cases "fileIteratorContinuationToken cur")
    case (Some fs)
    then show ?thesis using ds below
      by (cases fs)
         (simp_all add: st step_snoc stepKindOf_snoc treeDrive_def pendingRows_snoc
            pendingTrace_snoc hasFolderTokens_snoc frameRows_def frameTrace_def)
  next
    case None
    then show ?thesis using ds below
      apply (cases ds)
       apply (simp_all add: st step_snoc stepKindOf_snoc treeDrive_def pendingRows_snoc
            pendingTrace_snoc hasFolderTokens_snoc pendingRows_snoc2 pendingTrace_snoc2
            hasFolderTokens_snoc2 frameRows_make frameTrace_make folderName_make
            folderToken_make folderItem_handle childRows_def)
       apply (simp_all add: frameRows_def frameTrace_def childRows_def)
      done
  qed
qed

lemma tree_steps:
  assumes "hasFolderTokens st" and "n \<le> length (pendingTrace st)"
  shows "\<exists>st' rows.
           stepsN (treeDrive me t) n st sh = (Inr st', sh @ rows) \<and>
           hasFolderTokens st' \<and>
           rows @ pendingRows me [] st' = pendingRows me [] st \<and>
           traceN (treeDrive me t) n st @ pendingTrace st' = pendingTrace st \<and>
           length (traceN (treeDrive me t) n st) = n"
  using assms
proof (induction n arbitrary: st sh)
  case 0
  then show ?case by simp
next
  case (Suc n)
  from Suc.prems have ne: "st \<noteq> []"
    by (auto simp: pendingTrace_def)
  from tree_step [OF Suc.prems(1) ne, of me t sh] obtain st1 rows1 where
    step: "listFilesAndFolders (treeDrive me t) st sh = (Inr st1, sh @ rows1)"
    and inv1: "hasFolderTokens st1"
    and rows1: "rows1 @ pendingRows me [] st1 = pendingRows me [] st"
    and trace1: "stepKindOf (treeDrive me t) st # pendingTrace st1 = pendingTrace st"
    by blast
  from step step_sheet_indep [of "treeDrive me t" st "[]" sh] obtain r where
    step0: "listFilesAndFolders (treeDrive me t) st [] = (Inr st1, r)"
    by (cases "listFilesAndFolders (treeDrive me t) st []") simp
  from trace1 Suc.prems(2) have le: "n \<le> length (pendingTrace st1)"
    by (metis Suc_le_mono length_Cons)
  from Suc.IH [OF inv1 le, of "sh @ rows1"] obtain st' rows where
    run: "stepsN (treeDrive me t) n st1 (sh @ rows1) = (Inr st', (sh @ rows1) @ rows)"
    and inv': "hasFolderTokens st'"
    and rows: "rows @ pendingRows me [] st' = pendingRows me [] st1"
    and trace: "traceN (treeDrive me t) n st1 @ pendingTrace st' = pendingTrace st1"
    and len: "length (traceN (treeDrive me t) n st1) = n"
    by blast
  show ?case
    using step step0 run inv' rows rows1 trace trace1 len
    by (intro exI [of _ st'] exI [of _ "rows1 @ rows"]) simp
qed

lemma tree_run:
  assumes "hasFolderTokens st" and "length (pendingTrace st) = n"
  shows "runUnlimited (treeDrive me t) st sh = Some (None, sh @ pendingRows me [] st)"
  using assms
proof (induction n arbitrary: st sh)
  case 0
  then have "st = []" by (simp add: pendingTrace_empty_iff)
  then show ?case by (subst runUnlimited.simps) simp
next
  case (Suc n)
  from Suc.prems have ne: "st \<noteq> []"
    by (auto simp: pendingTrace_def)
  from tree_step [OF Suc.prems(1) ne, of me t sh] obtain st1 rows1 where
    step: "listFilesAndFolders (treeDrive me t) st sh = (Inr st1, sh @ rows1)"
    and inv1: "hasFolderTokens st1"
    and rows1: "rows1 @ pendingRows me [] st1 = pendingRows me [] st"
    and trace1: "stepKindOf (treeDrive me t) st # pendingTrace st1 = pendingTrace st"
    by blast
  from trace1 Suc.prems(2) have len: "length (pendingTrace st1) = n"
    by (metis length_Cons nat.inject)
  have "(sh @ rows1) @ pendingRows me [] st1 = sh @ pendingRows me [] st"
    using rows1 by (metis append_assoc)
  with Suc.IH [OF inv1 len, of "sh @ rows1"] step ne show ?case
    by (subst runUnlimited.simps) simp
qed

lemma initial_tree:
  "hasFolderTokens [makeIterationFromFolder (handle t)]"
  "pendingTrace [makeIterationFromFolder (handle t)] = expectedTrace t"
  "pendingRows me [] [makeIterationFromFolder (handle t)] =
     expectedRows me [itemName (treeItem t)] t"
  by (simp_all add: hasFolderTokens_def folderToken_make pendingTrace_def frameTrace_make
        frameRows_make folderName_make)

lemma getRootFolder_treeDrive: "getRootFolder (treeDrive me t) = handle t"
  by (simp add: treeDrive_def)

lemma sum_list_filter_concat:
  "(\<And>x. x \<in> set xs \<Longrightarrow> length (filter P (f x)) = g x) \<Longrightarrow>
     length (filter P (concat (map f xs))) = sum_list (map g xs)"
  by (induction xs) auto

lemma count_leaf: "length (filter (\<lambda>k. k = LeafAdvance) (expectedTrace t)) = leafPageAdvances t"
proof (induction t)
  case (Folder m fs ds)
  have "length (filter (\<lambda>k. k = LeafAdvance) (concat (map (\<lambda>d. ChildAdvance # expectedTrace d) ds)))
          = sum_list (map leafPageAdvances ds)"
    by (rule sum_list_filter_concat) (simp add: Folder.IH)
  then show ?case by simp
qed

lemma count_child: "length (filter (\<lambda>k. k = ChildAdvance) (expectedTrace t)) = childPageAdvances t"
proof (induction t)
  case (Folder m fs ds)
  have "length (filter (\<lambda>k. k = ChildAdvance) (concat (map (\<lambda>d. ChildAdvance # expectedTrace d) ds)))
          = sum_list (map (\<lambda>d. Suc (childPageAdvances d)) ds)"
    by (rule sum_list_filter_concat) (simp add: Folder.IH)
  moreover have "sum_list (map (\<lambda>d. Suc (childPageAdvances d)) ds)
          = length ds + sum_list (map childPageAdvances ds)"
    by (induction ds) auto
  ultimately show ?case by simp
qed

lemma count_pop: "length (filter (\<lambda>k. k = Pop) (expectedTrace t)) = popOperations t"
proof (induction t)
  case (Folder m fs ds)
  have "length (filter (\<lambda>k. k = Pop) (concat (map (\<lambda>d. ChildAdvance # expectedTrace d) ds)))
          = sum_list (map popOperations ds)"
    by (rule sum_list_filter_concat) (simp add: Folder.IH)
  then show ?case by simp
qed

lemma length_expectedTrace:
  "length (expectedTrace t) = leafPageAdvances t + childPageAdvances t + popOperations t"
proof (induction t)
  case (Folder m fs ds)
  have "length (concat (map (\<lambda>d. ChildAdvance # expectedTrace d) ds))
          = length ds + sum_list (map leafPageAdvances ds) + sum_list (map childPageAdvances ds)
            + sum_list (map popOperations ds)"
    using Folder.IH by (induction ds) auto
  then show ?case by simp
qed


lemma tree_trace:
  "traceN (treeDrive me t) (length (expectedTrace t)) [makeIterationFromFolder (handle t)] =
     expectedTrace t \<and>
   (\<exists>out. stepsN (treeDrive me t) (length (expectedTrace t))
             [makeIterationFromFolder (handle t)] sh = (Inr [], out))"
proof -
  let ?init = "[makeIterationFromFolder (handle t)]"
  have le: "length (expectedTrace t) \<le> length (pendingTrace ?init)"
    by (simp add: initial_tree)
  from tree_steps [OF initial_tree(1) le, of me t sh] obtain st' rows where
    run: "stepsN (treeDrive me t) (length (expectedTrace t)) ?init sh = (Inr st', sh @ rows)"
    and inv: "hasFolderTokens st'"
    and tr: "traceN (treeDrive me t) (length (expectedTrace t)) ?init @ pendingTrace st' =
               expectedTrace t"
    and len: "length (traceN (treeDrive me t) (length (expectedTrace t)) ?init) =
               length (expectedTrace t)"
    by (auto simp: initial_tree)
  from tr len have "pendingTrace st' = []"
    by (metis append_eq_conv_conj drop_all order_refl)
  with inv have "st' = []"
    by (simp add: pendingTrace_empty_iff)
  with run tr \<open>pendingTrace st' = []\<close> show ?thesis by simp
qed

lemma tree_not_done:
  assumes "k < length (expectedTrace t)"
  shows "\<exists>st out. stepsN (treeDrive me t) k [makeIterationFromFolder (handle t)] sh =
           (Inr st, out) \<and> st \<noteq> []"
proof -
  let ?init = "[makeIterationFromFolder (handle t)]"
  from assms have le: "k \<le> length (pendingTrace ?init)"
    by (simp add: initial_tree)
  from tree_steps [OF initial_tree(1) le, of me t sh] obtain st' rows where
    run: "stepsN (treeDrive me t) k ?init sh = (Inr st', sh @ rows)"
    and tr: "traceN (treeDrive me t) k ?init @ pendingTrace st' = expectedTrace t"
    and len: "length (traceN (treeDrive me t) k ?init) = k"
    by (auto simp: initial_tree)
  from tr have "length (traceN (treeDrive me t) k ?init) + length (pendingTrace st') =
      length (expectedTrace t)"
    by (metis length_append)
  with len assms have "pendingTrace st' \<noteq> []" by auto
  then have "st' \<noteq> []" by (auto simp: pendingTrace_def)
  with run show ?thesis by blast
qed

text \<open>
  C9. Over a finite Drive, and with the time limit never reached, the calls made from the
  one-entry iterator of the root empty the iterator after exactly as many calls as the tree has
  file-iterator calls, folder-iterator calls that enter a folder, and pops: the iterator is
  empty after that many calls and not before, the calls made are of these three kinds in these
  numbers, none of them throws, and the loop returns.
\<close>

theorem finite_drive_terminates:
  "(\<exists>out. stepsN (treeDrive me t)
             (leafPageAdvances t + childPageAdvances t + popOperations t)
             [makeIterationFromFolder (getRootFolder (treeDrive me t))] sh = (Inr [], out))
   \<and> (\<forall>k < leafPageAdvances t + childPageAdvances t + popOperations t.
         \<exists>st out. stepsN (treeDrive me t) k
                     [makeIterationFromFolder (getRootFolder (treeDrive me t))] sh = (Inr st, out)
                   \<and> st \<noteq> [])
   \<and> length (filter (\<lambda>k. k = LeafAdvance)
        (traceN (treeDrive me t) (leafPageAdvances t + childPageAdvances t + popOperations t)
           [makeIterationFromFolder (getRootFolder (treeDrive me t))])) = leafPageAdvances t
   \<and> length (filter (\<lambda>k. k = ChildAdvance)
        (traceN (treeDrive me t) (leafPageAdvances t + childPageAdvances t + popOperations t)
           [makeIterationFromFolder (getRootFolder (treeDrive me t))])) = childPageAdvances t
   \<and> length (filter (\<lambda>k. k = Pop)
        (traceN (treeDrive me t) (leafPageAdvances t + childPageAdvances t + popOperations t)
           [makeIterationFromFolder (getRootFolder (treeDrive me t))])) = popOperations t
   \<and> (\<exists>out. runUnlimited (treeDrive me t)
               [makeIterationFromFolder (getRootFolder (treeDrive me t))] sh = Some (None, out))"
proof -
  have n: "leafPageAdvances t + childPageAdvances t + popOperations t = length (expectedTrace t)"
    by (simp add: length_expectedTrace)
  have run: "\<exists>out. runUnlimited (treeDrive me t) [makeIterationFromFolder (handle t)] sh =
      Some (None, out)"
    using tree_run [where me = me and t = t and sh = sh, OF initial_tree(1) [of t] refl] by blast
  show ?thesis
    unfolding n getRootFolder_treeDrive
    using tree_trace [of me t sh] tree_not_done [of _ t me sh] run
    by (simp add: count_leaf count_child count_pop)
qed

theorem finite_drive_terminates_witness:
  "leafPageAdvances scenarioTree + childPageAdvances scenarioTree + popOperations scenarioTree = 7
   \<and> (\<exists>out. stepsN (treeDrive ''me@example.com'' scenarioTree) 7
               [makeIterationFromFolder (getRootFolder (treeDrive ''me@example.com'' scenarioTree))]
               [] = (Inr [], out))
   \<and> (\<exists>st out. stepsN (treeDrive ''me@example.com'' scenarioTree) 6
               [makeIterationFromFolder (getRootFolder (treeDrive ''me@example.com'' scenarioTree))]
               [] = (Inr st, out) \<and> st \<noteq> [])"
proof -
  have n: "leafPageAdvances scenarioTree + childPageAdvances scenarioTree
      + popOperations scenarioTree = 7"
    by (simp add: scenarioTree_def)
  have "(6 :: nat) < 7" by simp
  with finite_drive_terminates [of "''me@example.com''" scenarioTree "[]"] show ?thesis
    unfolding n by blast
qed

text \<open>
  C4. While the file token of the last entry is not \<^verbatim>\<open>null\<close>, a call is a file-iterator call:
  it does not look at the folder iterator, keeps the folder token and neither enters a folder
  nor pops. Over a finite Drive the calls and the rows therefore come in the order of
  \<open>expectedTrace\<close> and \<open>expectedRows\<close>: first the files of a folder, then each subfolder with
  its row at the moment it is listed, followed by everything below it, before the next
  subfolder.
\<close>

theorem files_before_folders_depth_first:
  "(st \<noteq> [] \<and> fileIteratorContinuationToken (last st) \<noteq> None \<longrightarrow>
      stepKindOf drv st = LeafAdvance \<and>
      listFilesAndFolders (drv\<lparr>continueFolderIterator := g\<rparr>) st sh0 =
        listFilesAndFolders drv st sh0 \<and>
      (\<exists>st'. fst (listFilesAndFolders drv st sh0) = Inr st' \<and> length st' = length st \<and>
         butlast st' = butlast st \<and>
         folderIteratorContinuationToken (last st') = folderIteratorContinuationToken (last st)))
   \<and> traceN (treeDrive me t) (length (expectedTrace t))
        [makeIterationFromFolder (getRootFolder (treeDrive me t))] = expectedTrace t
   \<and> runUnlimited (treeDrive me t) [makeIterationFromFolder (getRootFolder (treeDrive me t))] sh =
        Some (None, sh @ expectedRows me [itemName (treeItem t)] t)"
proof -
  have step: "st \<noteq> [] \<and> fileIteratorContinuationToken (last st) \<noteq> None \<longrightarrow>
      stepKindOf drv st = LeafAdvance \<and>
      listFilesAndFolders (drv\<lparr>continueFolderIterator := g\<rparr>) st sh0 =
        listFilesAndFolders drv st sh0 \<and>
      (\<exists>st'. fst (listFilesAndFolders drv st sh0) = Inr st' \<and> length st' = length st \<and>
         butlast st' = butlast st \<and>
         folderIteratorContinuationToken (last st') = folderIteratorContinuationToken (last st))"
  proof (cases st rule: rev_cases)
    case Nil
    then show ?thesis by simp
  next
    case (snoc below cur)
    show ?thesis
      unfolding snoc step_snoc stepKindOf_snoc
      by (auto split: option.splits)
  qed
  have run: "runUnlimited (treeDrive me t) [makeIterationFromFolder (handle t)] sh =
      Some (None, sh @ expectedRows me [itemName (treeItem t)] t)"
    using tree_run [where me = me and t = t and sh = sh, OF initial_tree(1) [of t] refl]
    by (simp add: frameRows_make folderName_make)
  from step run tree_trace [of me t sh] show ?thesis
    unfolding getRootFolder_treeDrive by blast
qed

theorem files_before_folders_depth_first_witness:
  "traceN (treeDrive ''me@example.com'' scenarioTree) 7
     [makeIterationFromFolder (getRootFolder (treeDrive ''me@example.com'' scenarioTree))] =
     [LeafAdvance, LeafAdvance, ChildAdvance, LeafAdvance, LeafAdvance, Pop, Pop]
   \<and> stepKindOf (treeDrive ''me@example.com'' scenarioTree)
        [makeIterationFromFolder (handle scenarioTree)] = LeafAdvance"
proof -
  have ne: "[makeIterationFromFolder (handle scenarioTree)] \<noteq> [] \<and>
      fileIteratorContinuationToken (last [makeIterationFromFolder (handle scenarioTree)]) \<noteq> None"
    by (simp add: makeIterationFromFolder_def)
  have tr: "expectedTrace scenarioTree =
      [LeafAdvance, LeafAdvance, ChildAdvance, LeafAdvance, LeafAdvance, Pop, Pop]"
    by (simp add: scenarioTree_def)
  have len: "length (expectedTrace scenarioTree) = 7"
    by (simp add: tr)
  from files_before_folders_depth_first
         [where st = "[makeIterationFromFolder (handle scenarioTree)]"
            and drv = "treeDrive ''me@example.com'' scenarioTree"
            and me = "''me@example.com''" and t = scenarioTree] ne
  have a: "traceN (treeDrive ''me@example.com'' scenarioTree) (length (expectedTrace scenarioTree))
          [makeIterationFromFolder (getRootFolder (treeDrive ''me@example.com'' scenarioTree))] =
          expectedTrace scenarioTree"
    and b: "stepKindOf (treeDrive ''me@example.com'' scenarioTree)
          [makeIterationFromFolder (handle scenarioTree)] = LeafAdvance"
    by blast+
  from a have "traceN (treeDrive ''me@example.com'' scenarioTree) 7
          [makeIterationFromFolder (getRootFolder (treeDrive ''me@example.com'' scenarioTree))] =
          expectedTrace scenarioTree"
    unfolding len .
  with b show ?thesis
    by (simp add: tr)
qed

text \<open>
  C2. The scenario of the specification, run with the time limit never reached. The first cell
  of a row is the joined names of the entries of the iterator, the root's among them, with the
  item's name put directly behind: the script writes \<^verbatim>\<open>My Drivea.txt\<close> and
  \<^verbatim>\<open>My Drive/subb.txt\<close>, with kind \<^verbatim>\<open>File\<close>, where the claim has \<^verbatim>\<open>a.txt\<close> and
  \<^verbatim>\<open>sub/b.txt\<close>.
\<close>

theorem scenario_report:
  "runUnlimited (treeDrive ''me@example.com'' scenarioTree)
     [makeIterationFromFolder (getRootFolder (treeDrive ''me@example.com'' scenarioTree))] [] =
   Some (None, [[Text ''My Drivea.txt'', Text ''File'', Text ''Shared''],
                [Text ''My Drive/subb.txt'', Text ''File'', Text ''Shared'']])"
proof -
  have "expectedRows ''me@example.com'' [itemName (treeItem scenarioTree)] scenarioTree =
      [[Text ''My Drivea.txt'', Text ''File'', Text ''Shared''],
       [Text ''My Drive/subb.txt'', Text ''File'', Text ''Shared'']]"
    by (simp add: scenarioTree_def reportRow_def getSharingAccess_def ownItem_def)
  with tree_run [where me = "''me@example.com''" and t = scenarioTree and sh = "[]",
                 OF initial_tree(1) [of scenarioTree] refl]
  show ?thesis
    by (simp add: frameRows_make folderName_make getRootFolder_treeDrive)
qed


section \<open>The iterator survives JSON.stringify and JSON.parse\<close>





lemma skipWs_Cons: "\<not> isWs c \<Longrightarrow> skipWs (c # cs) = c # cs"
  by (simp add: skipWs_def)



lemma skipWs_quoted: "skipWs (quoteJSONString k @ r) = quoteJSONString k @ r"
  by (simp add: quoteJSONString_def skipWs_Cons isWs_def)






















lemma parse_bracket: "JSON_parse ''['' = None"
  by code_simp

lemma stringify_empty: "stringify (iteratorJSON []) = ''[]''"
  by (simp add: iteratorJSON_def)



section \<open>Properties of the invocation\<close>

lemma prettyPrint_empty: "prettyPrintUserProperties (Some ''[]'') = None"
  by code_simp

lemma prettyPrint_none: "prettyPrintUserProperties None = None"
  by code_simp

lemma prettyPrint_quoted:
  "prettyPrintUserProperties (Some (stringify (iteratorJSON quotedIterator))) = Some SyntaxError"
  by code_simp

lemma mainLoop_empty:
  "mainLoop drv clock k [] sheet property =
     Some (None, setValue REPORT_SPREADSHEET_CELL_ITERATION_FINISHED (Text ''yes'') sheet, None)"
  by (subst mainLoop.simps) simp

lemma mainLoop_step:
  assumes "st \<noteq> []" and "listFilesAndFolders drv st sh = (Inr st', sh')"
  shows "mainLoop drv clock k st sh property =
           (if clock k - clock 0 \<ge> MAX_EXECUTION_TIME_IN_MS
            then Some (prettyPrintUserProperties (Some (stringify (iteratorJSON st'))),
                       setValue REPORT_SPREADSHEET_CELL_ITERATION_FINISHED (Text ''no'') sh',
                       Some (stringify (iteratorJSON st')))
            else mainLoop drv clock (Suc k) st' sh' property)"
  using assms by (subst mainLoop.simps) (simp add: Let_def)

lemma mainLoop_throw:
  assumes "st \<noteq> []" and "listFilesAndFolders drv st sh = (Inl e, sh')"
  shows "mainLoop drv clock k st sh property = Some (Some e, sh', property)"
  using assms by (subst mainLoop.simps) simp

lemma mainLoop_steps:
  assumes "stepsN drv n st sh = (Inr st', sh')"
    and "\<forall>i<n. fst (stepsN drv i st sh) \<noteq> Inr []"
    and "\<forall>i<n. clock (k + i) - clock 0 < MAX_EXECUTION_TIME_IN_MS"
  shows "mainLoop drv clock k st sh property = mainLoop drv clock (k + n) st' sh' property"
  using assms
proof (induction n arbitrary: st sh k)
  case 0
  then show ?case by simp
next
  case (Suc n)
  from Suc.prems(2) [rule_format, of 0] have ne: "st \<noteq> []" by simp
  from Suc.prems(1) obtain st1 sh1 where
    step: "listFilesAndFolders drv st sh = (Inr st1, sh1)"
    and rest: "stepsN drv n st1 sh1 = (Inr st', sh')"
    by (auto split: prod.splits sum.splits)
  from Suc.prems(3) [rule_format, of 0] have quiet: "\<not> clock k - clock 0 \<ge> MAX_EXECUTION_TIME_IN_MS"
    by simp
  have "\<forall>i<n. fst (stepsN drv i st1 sh1) \<noteq> Inr []"
  proof (intro allI impI)
    fix i assume "i < n"
    with Suc.prems(2) [rule_format, of "Suc i"] step show "fst (stepsN drv i st1 sh1) \<noteq> Inr []"
      by simp
  qed
  moreover have "\<forall>i<n. clock (Suc k + i) - clock 0 < MAX_EXECUTION_TIME_IN_MS"
  proof (intro allI impI)
    fix i assume "i < n"
    with Suc.prems(3) [rule_format, of "Suc i"] show "clock (Suc k + i) - clock 0 < MAX_EXECUTION_TIME_IN_MS"
      by simp
  qed
  ultimately have "mainLoop drv clock (Suc k) st1 sh1 property =
      mainLoop drv clock (Suc k + n) st' sh' property"
    using Suc.IH [OF rest] by blast
  with mainLoop_step [OF ne step, of clock k property] quiet show ?case
    by simp
qed


text \<open>
  C8. A call on an iterator whose last entry has both tokens \<^verbatim>\<open>null\<close> throws
  \<^verbatim>\<open>"Should never get here. Iterator failure!"\<close> and writes no row; the loop of \<^verbatim>\<open>main\<close> ends
  with that throw, without another call, and leaves the sheet and the user property alone.
\<close>

theorem both_null_throws:
  assumes "st \<noteq> []"
    and "fileIteratorContinuationToken (last st) = None"
    and "folderIteratorContinuationToken (last st) = None"
  shows "listFilesAndFolders drv st sh =
           (Inl (Thrown ''Should never get here. Iterator failure!''), sh)
         \<and> mainLoop drv clock k st sh property =
           Some (Some (Thrown ''Should never get here. Iterator failure!''), sh, property)"
proof -
  from assms have "listFilesAndFolders drv st sh =
      (Inl (Thrown ''Should never get here. Iterator failure!''), sh)"
    by (simp add: listFilesAndFolders_def)
  with mainLoop_throw [OF assms(1) this] show ?thesis by simp
qed

theorem both_null_throws_witness:
  "listFilesAndFolders emptyDrive
     [\<lparr> folderName = ''My Drive'', fileIteratorContinuationToken = None,
        folderIteratorContinuationToken = None \<rparr>] [] =
     (Inl (Thrown ''Should never get here. Iterator failure!''), [])
   \<and> mainLoop emptyDrive (\<lambda>k. 0) 1
     [\<lparr> folderName = ''My Drive'', fileIteratorContinuationToken = None,
        folderIteratorContinuationToken = None \<rparr>] [] (Some ''[]'') =
     Some (Some (Thrown ''Should never get here. Iterator failure!''), [], Some ''[]'')"
  using both_null_throws [of
      "[\<lparr> folderName = ''My Drive'', fileIteratorContinuationToken = None,
          folderIteratorContinuationToken = None \<rparr>]" emptyDrive "[]" "\<lambda>k. 0" 1 "Some ''[]''"]
  by simp

text \<open>
  The end of the loop. When a call empties the iterator and the time limit has not been
  reached at the reading of the clock after that call, the invocation deletes the user property
  and writes \<^verbatim>\<open>yes\<close>. When the limit has been reached at that reading, the invocation stores
  the empty iterator as the text \<^verbatim>\<open>[]\<close> and writes \<^verbatim>\<open>no\<close>: the time check comes before the
  test of the length. (An invocation that starts from the empty iterator makes no call, deletes
  the property and writes \<^verbatim>\<open>yes\<close>: \<open>mainLoop_empty\<close>.)
\<close>

theorem iteration_end:
  assumes "stepsN drv n st0 sh0 = (Inr st, sh)"
    and "\<forall>i\<le>n. fst (stepsN drv i st0 sh0) \<noteq> Inr []"
    and "\<forall>i<n. clock (k + i) - clock 0 < MAX_EXECUTION_TIME_IN_MS"
    and "listFilesAndFolders drv st sh = (Inr [], sh')"
  shows "mainLoop drv clock k st0 sh0 property =
           (if clock (k + n) - clock 0 \<ge> MAX_EXECUTION_TIME_IN_MS
            then Some (None,
                       setValue REPORT_SPREADSHEET_CELL_ITERATION_FINISHED (Text ''no'') sh',
                       Some ''[]'')
            else Some (None,
                       setValue REPORT_SPREADSHEET_CELL_ITERATION_FINISHED (Text ''yes'') sh',
                       None))"
proof -
  from assms(2) have pre: "\<forall>i<n. fst (stepsN drv i st0 sh0) \<noteq> Inr []" by simp
  from assms(2) [rule_format, of n] assms(1) have ne: "st \<noteq> []" by simp
  have "mainLoop drv clock k st0 sh0 property = mainLoop drv clock (k + n) st sh property"
    by (rule mainLoop_steps [OF assms(1) pre assms(3)])
  also have "\<dots> = (if clock (k + n) - clock 0 \<ge> MAX_EXECUTION_TIME_IN_MS
            then Some (None,
                       setValue REPORT_SPREADSHEET_CELL_ITERATION_FINISHED (Text ''no'') sh',
                       Some ''[]'')
            else Some (None,
                       setValue REPORT_SPREADSHEET_CELL_ITERATION_FINISHED (Text ''yes'') sh',
                       None))"
    by (simp add: mainLoop_step [OF ne assms(4)] mainLoop_empty stringify_empty prettyPrint_empty)
  finally show ?thesis .
qed


theorem iteration_end_witness:
  "mainLoop emptyDrive (\<lambda>k. 0) 1 [makeIterationFromFolder (getRootFolder emptyDrive)] [] None =
     Some (None, setValue REPORT_SPREADSHEET_CELL_ITERATION_FINISHED (Text ''yes'') [], None)
   \<and> mainLoop emptyDrive (limitAt 2) 1 [makeIterationFromFolder (getRootFolder emptyDrive)] []
       None =
     Some (None, setValue REPORT_SPREADSHEET_CELL_ITERATION_FINISHED (Text ''no'') [],
           Some ''[]'')"
proof -
  let ?init = "[makeIterationFromFolder (getRootFolder emptyDrive)]"
  let ?st = "[\<lparr> folderName = ''My Drive'', fileIteratorContinuationToken = None,
                 folderIteratorContinuationToken = Some ''folders-of-root'' \<rparr>]"
  have first: "stepsN emptyDrive 1 ?init [] = (Inr ?st, [])"
    by (simp add: listFilesAndFolders_def emptyDrive_def makeIterationFromFolder_def ownItem_def)
  have nonempty: "\<forall>i\<le>1. fst (stepsN emptyDrive i ?init []) \<noteq> Inr []"
    using first by (auto simp: le_Suc_eq)
  have quiet: "\<forall>i<1. (\<lambda>k. 0 :: int) (1 + i) - (\<lambda>k. 0) 0 < MAX_EXECUTION_TIME_IN_MS"
    by (simp add: MAX_EXECUTION_TIME_IN_MS_def)
  have quiet2: "\<forall>i<1. limitAt 2 (1 + i) - limitAt 2 0 < MAX_EXECUTION_TIME_IN_MS"
    by (simp add: MAX_EXECUTION_TIME_IN_MS_def limitAt_def)
  have last: "listFilesAndFolders emptyDrive ?st [] = (Inr [], [])"
    by (simp add: listFilesAndFolders_def emptyDrive_def)
  have early: "\<not> MAX_EXECUTION_TIME_IN_MS \<le> (\<lambda>k. 0 :: int) (1 + 1) - (\<lambda>k. 0) 0"
    by (simp add: MAX_EXECUTION_TIME_IN_MS_def)
  have late: "MAX_EXECUTION_TIME_IN_MS \<le> limitAt 2 (1 + 1) - limitAt 2 0"
    by (simp add: MAX_EXECUTION_TIME_IN_MS_def limitAt_def)
  from iteration_end [OF first nonempty quiet last, where property = None] early
  have a: "mainLoop emptyDrive (\<lambda>k. 0) 1 [makeIterationFromFolder (getRootFolder emptyDrive)] []
      None =
      Some (None, setValue REPORT_SPREADSHEET_CELL_ITERATION_FINISHED (Text ''yes'') [], None)"
    by simp
  from iteration_end [OF first nonempty quiet2 last, where property = None] late
  have b: "mainLoop emptyDrive (limitAt 2) 1 [makeIterationFromFolder (getRootFolder emptyDrive)]
      [] None =
      Some (None, setValue REPORT_SPREADSHEET_CELL_ITERATION_FINISHED (Text ''no'') [],
            Some ''[]'')"
    by simp
  from a b show ?thesis by blast
qed

text \<open>
  C3. On an empty Drive, with the limit reached at the second reading of the clock, the second
  call empties the iterator. The invocation then does not delete the user property and write
  \<^verbatim>\<open>yes\<close>, as it does when the loop ends by its condition: it returns from inside the loop,
  with the text \<^verbatim>\<open>[]\<close> stored under the key and \<^verbatim>\<open>no\<close> in the sheet.
\<close>

theorem empty_iterator_is_persisted:
  "main defaultConfig emptyDrive (limitAt 2) ''t1''
     \<lparr> userProperty = None, reportSpreadsheet = None \<rparr> =
   Some (Returns (),
         \<lparr> userProperty = Some ''[]'',
           reportSpreadsheet =
             Some \<lparr> activeSheet = freshSheet ''t1'' ''no'', otherSheets = [[]] \<rparr> \<rparr>)"
  by code_simp



















text \<open>
  A defect of the script beside C7. Its head says that \<^verbatim>\<open>FORCE_NEW_ITERATION\<close> starts a new
  iteration in any case and that a persisted iterator is then ignored, and that with a
  \<^verbatim>\<open>START_FOLDER_PATH\<close> the persisted iterator does not matter. But the property is parsed
  before the configuration is looked at, so a stored text that is not JSON stops these two
  starts as well.
\<close>

lemma configured_start_parses_first:
  "prepareIteration \<lparr> START_FOLDER_PATH = [], FORCE_NEW_ITERATION = True \<rparr> quotedDrive
     (Some ''['') ''t1'' \<lparr> activeSheet = [], otherSheets = [] \<rparr>
     = (Throws SyntaxError, \<lparr> activeSheet = [], otherSheets = [] \<rparr>)
   \<and> prepareIteration \<lparr> START_FOLDER_PATH = [CHR ''a'', dquote, CHR ''b''],
                        FORCE_NEW_ITERATION = False \<rparr> quotedDrive
     (Some ''['') ''t1'' \<lparr> activeSheet = [], otherSheets = [] \<rparr>
     = (Throws SyntaxError, \<lparr> activeSheet = [], otherSheets = [] \<rparr>)"
  by (simp add: prepareIteration_def parse_bracket)

text \<open>
  C1. In \<open>quotedDrive\<close> the limit is reached after the second call, when the folder \<^verbatim>\<open>a"b\<close> has
  just been entered. The iterator is stored, and \<open>parse_stringify_iterator\<close> and
  \<open>prepareIteration_resume\<close> say that \<open>prepareIteration\<close> would read it back as it was. But
  \<^verbatim>\<open>prettyPrintUserProperties\<close> removes the backslash in front of the quote in the stored name
  and throws on the text it has made, at the end of this invocation and at the start of every
  later one: the later invocation makes no call, while the next call on the same iterator gives
  the row of \<^verbatim>\<open>f.txt\<close>.
\<close>

theorem resume_stops_at_quoted_name:
  "main defaultConfig quotedDrive (limitAt 2) ''t1''
     \<lparr> userProperty = None, reportSpreadsheet = None \<rparr> =
   Some (Throws SyntaxError,
         \<lparr> userProperty = Some (stringify (iteratorJSON quotedIterator)),
           reportSpreadsheet =
             Some \<lparr> activeSheet = freshSheet ''t1'' ''no'', otherSheets = [[]] \<rparr> \<rparr>)
   \<and> main defaultConfig quotedDrive (\<lambda>k. 0) ''t2''
     \<lparr> userProperty = Some (stringify (iteratorJSON quotedIterator)),
       reportSpreadsheet =
         Some \<lparr> activeSheet = freshSheet ''t1'' ''no'', otherSheets = [[]] \<rparr> \<rparr> =
   Some (Throws SyntaxError,
         \<lparr> userProperty = Some (stringify (iteratorJSON quotedIterator)),
           reportSpreadsheet =
             Some \<lparr> activeSheet = freshSheet ''t1'' ''no'', otherSheets = [[]] \<rparr> \<rparr>)
   \<and> snd (listFilesAndFolders quotedDrive quotedIterator (freshSheet ''t1'' ''no'')) =
       freshSheet ''t1'' ''no'' @
       [[Text (''My Drive/'' @ [CHR ''a'', dquote, CHR ''b''] @ ''f.txt''),
         Text ''File'', Text ''Shared'']]"
proof -
  have first: "main defaultConfig quotedDrive (limitAt 2) ''t1''
      \<lparr> userProperty = None, reportSpreadsheet = None \<rparr> =
    Some (Throws SyntaxError,
          \<lparr> userProperty = Some (stringify (iteratorJSON quotedIterator)),
            reportSpreadsheet =
              Some \<lparr> activeSheet = freshSheet ''t1'' ''no'', otherSheets = [[]] \<rparr> \<rparr>)"
    by code_simp
  have second: "main defaultConfig quotedDrive (\<lambda>k. 0) ''t2''
      \<lparr> userProperty = Some (stringify (iteratorJSON quotedIterator)),
        reportSpreadsheet =
          Some \<lparr> activeSheet = freshSheet ''t1'' ''no'', otherSheets = [[]] \<rparr> \<rparr> =
    Some (Throws SyntaxError,
          \<lparr> userProperty = Some (stringify (iteratorJSON quotedIterator)),
            reportSpreadsheet =
              Some \<lparr> activeSheet = freshSheet ''t1'' ''no'', otherSheets = [[]] \<rparr> \<rparr>)"
    by (simp add: main_def prettyPrint_quoted)
  have third: "snd (listFilesAndFolders quotedDrive quotedIterator (freshSheet ''t1'' ''no'')) =
      freshSheet ''t1'' ''no'' @
      [[Text (''My Drive/'' @ [CHR ''a'', dquote, CHR ''b''] @ ''f.txt''),
        Text ''File'', Text ''Shared'']]"
    by (simp add: listFilesAndFolders_def quotedDrive_def quotedIterator_def appendRow_def
          getSharingAccess_def ownItem_def)
  from first second third show ?thesis by blast
qed

end
